theory Spec2Isabelle
  imports Main
begin

section \<open>The persistent store (cache/db.ts)\<close>

text \<open>
  The store holds three entity tables and the table \<open>sync_meta\<close>. An entity row is
  \<open>(id, name, synced_at)\<close> for \<open>channels\<close> and \<open>users\<close> and \<open>(id, handle, synced_at)\<close>
  for \<open>user_groups\<close>; the field \<open>label\<close> stands for the column \<open>name\<close> resp. \<open>handle\<close>.
  Timestamps are the millisecond counts of \<open>Date.now()\<close>, modelled as integers.
  \<open>table_name\<close> is the primary key of \<open>sync_meta\<close>, so that table is a partial map.
\<close>

record row =
  row_id :: string
  label :: string
  synced_at :: int

record meta =
  started_at :: int
  completed_at :: int

record db =
  channels :: "row list"
  users :: "row list"
  user_groups :: "row list"
  sync_meta :: "string \<rightharpoonup> meta"

text \<open>
  \<open>getDb\<close> seeds one row per kind with \<open>INSERT OR IGNORE ... VALUES (?, 0, 0)\<close>:
  an existing row is kept.
\<close>

definition upsert_meta :: "string \<Rightarrow> db \<Rightarrow> db" where
  "upsert_meta t d =
     (case sync_meta d t of
        Some m \<Rightarrow> d
      | None \<Rightarrow> d\<lparr>sync_meta := (sync_meta d)(t \<mapsto> \<lparr>started_at = 0, completed_at = 0\<rparr>)\<rparr>)"

definition seed_meta :: "db \<Rightarrow> db" where
  "seed_meta d = upsert_meta ''user_groups'' (upsert_meta ''users'' (upsert_meta ''channels'' d))"

definition empty_db :: db where
  "empty_db = seed_meta \<lparr>channels = [], users = [], user_groups = [], sync_meta = Map.empty\<rparr>"

section \<open>Constants (cache/sync.ts)\<close>

definition SYNC_TIMEOUT_MS :: int where
  "SYNC_TIMEOUT_MS = 30000"

definition POLL_INTERVAL_MS :: int where
  "POLL_INTERVAL_MS = 500"

definition CACHE_TTL_MS :: int where
  "CACHE_TTL_MS = 24 * 60 * 60 * 1000"

section \<open>Entity lookups (cache/users.ts, cache/channels.ts)\<close>

text \<open>
  \<open>db.prepare('SELECT id FROM t WHERE ...').get(...)\<close> followed by \<open>row?.id ?? null\<close>:
  the id of the first row that satisfies the condition, or \<open>null\<close>.
\<close>

definition select_id :: "(row \<Rightarrow> bool) \<Rightarrow> row list \<Rightarrow> string option" where
  "select_id cond rows = map_option row_id (find cond rows)"

text \<open>\<open>SELECT id FROM users WHERE name = ? AND synced_at > ?\<close> with \<open>Date.now() - CACHE_TTL_MS\<close>.\<close>

definition lookupUser :: "string \<Rightarrow> int \<Rightarrow> db \<Rightarrow> string option" where
  "lookupUser name now d =
     select_id (\<lambda>r. label r = name \<and> synced_at r > now - CACHE_TTL_MS) (users d)"

definition lookupUserGroup :: "string \<Rightarrow> int \<Rightarrow> db \<Rightarrow> string option" where
  "lookupUserGroup handle now d =
     select_id (\<lambda>r. label r = handle \<and> synced_at r > now - CACHE_TTL_MS) (user_groups d)"

text \<open>\<open>lookupChannel\<close> of cache/channels.ts.\<close>

definition lookupChannel :: "string \<Rightarrow> int \<Rightarrow> db \<Rightarrow> string option" where
  "lookupChannel name now d =
     select_id (\<lambda>r. label r = name \<and> synced_at r > now - CACHE_TTL_MS) (channels d)"

section \<open>The operations on \<open>sync_meta\<close> (cache/sync.ts)\<close>

text \<open>
  The compare-and-set claim:
  \<^verbatim>\<open>UPDATE sync_meta SET started_at = ?
   WHERE table_name = ? AND (completed_at >= started_at OR started_at + ? < ?)\<close>
  run with \<open>(claimTime, tableName, SYNC_TIMEOUT_MS, claimTime)\<close>. The result is
  \<open>claimed.changes\<close> and the store after the statement.
\<close>

definition cas_claim :: "string \<Rightarrow> int \<Rightarrow> db \<Rightarrow> nat \<times> db" where
  "cas_claim tableName claimTime d =
     (case sync_meta d tableName of
        None \<Rightarrow> (0, d)
      | Some m \<Rightarrow>
          if completed_at m \<ge> started_at m \<or> started_at m + SYNC_TIMEOUT_MS < claimTime
          then (1, d\<lparr>sync_meta := (sync_meta d)(tableName \<mapsto> m\<lparr>started_at := claimTime\<rparr>)\<rparr>)
          else (0, d))"

text \<open>\<open>UPDATE sync_meta SET completed_at = ? WHERE table_name = ?\<close>\<close>

definition mark_completed :: "string \<Rightarrow> int \<Rightarrow> db \<Rightarrow> db" where
  "mark_completed tableName now d =
     (case sync_meta d tableName of
        None \<Rightarrow> d
      | Some m \<Rightarrow> d\<lparr>sync_meta := (sync_meta d)(tableName \<mapsto> m\<lparr>completed_at := now\<rparr>)\<rparr>)"

text \<open>\<open>UPDATE sync_meta SET started_at = completed_at WHERE table_name = ?\<close>\<close>

definition reset_lock :: "string \<Rightarrow> db \<Rightarrow> db" where
  "reset_lock tableName d =
     (case sync_meta d tableName of
        None \<Rightarrow> d
      | Some m \<Rightarrow> d\<lparr>sync_meta := (sync_meta d)(tableName \<mapsto> m\<lparr>started_at := completed_at m\<rparr>)\<rparr>)"

section \<open>Errors (utils/errors.ts)\<close>

datatype ErrorCode = CHANNEL_NOT_FOUND | SEND_FAILED | SYNC_FAILED | CONFIG_MISSING

datatype error = SlackMcpError ErrorCode string

section \<open>One caller and its environment\<close>

text \<open>
  A caller of \<open>syncIfNeeded\<close> shares the store with other processes. The world of one
  caller is the clock read by \<open>Date.now()\<close>, the store, and a schedule of what the
  other processes do while the caller is suspended or between two of its statements:
  each step of the schedule lets some time pass and rewrites the store. The schedule is
  consumed one step at a time by \<open>tick\<close>; an exhausted schedule means that nobody else
  acts any more. The clock never goes back, and the statements on the store and the
  lookups do not throw. The field \<open>events\<close> records what the caller did (a sleep, a
  claim that changed a row or none, a call of the refresh); it is read by no operation.
\<close>

datatype event = Slept | Claimed int | ClaimLost int | Refresh

record env_step =
  delay :: nat
  act :: "db \<Rightarrow> db"

record world =
  clock :: int
  store :: db
  sched :: "env_step list"
  events :: "event list"

definition tick :: "world \<Rightarrow> world" where
  "tick w =
     (case sched w of
        [] \<Rightarrow> w
      | e # es \<Rightarrow> w\<lparr>clock := clock w + int (delay e), store := act e (store w), sched := es\<rparr>)"

text \<open>\<open>await sleep(ms)\<close>: at least \<open>ms\<close> milliseconds pass, and the others may act.\<close>

definition sleep :: "int \<Rightarrow> world \<Rightarrow> world" where
  "sleep ms w = tick (w\<lparr>clock := clock w + ms, events := events w @ [Slept]\<rparr>)"

section \<open>The sync coordinator (cache/sync.ts)\<close>

definition isTableSynced :: "string \<Rightarrow> world \<Rightarrow> bool" where
  "isTableSynced tableName w =
     ((case sync_meta (store w) tableName of Some m \<Rightarrow> completed_at m | None \<Rightarrow> 0)
        > clock w - CACHE_TTL_MS)"

text \<open>
  The two polling loops of \<open>syncIfNeeded\<close> have the same body:
  \<^verbatim>\<open>while (Date.now() < deadline) {
    await sleep(POLL_INTERVAL_MS);
    const result = lookupFn();
    if (result !== null) return result;
    const updated = db.prepare('SELECT completed_at ...').get(tableName);
    if (updated && updated.completed_at >= since) break;
  }\<close>
  with \<open>since = meta.started_at\<close> in the first loop and \<open>since = claimTime\<close> in the second.
  \<open>poll\<close> returns \<open>Some result\<close> when the loop returns from \<open>syncIfNeeded\<close>, and
  \<open>None\<close> when the loop ends by \<open>break\<close> or at the deadline. \<open>lookupFn\<close> reads the clock
  and the store.
\<close>

function poll :: "(int \<Rightarrow> db \<Rightarrow> 'a option) \<Rightarrow> string \<Rightarrow> int \<Rightarrow> int \<Rightarrow> world \<Rightarrow> 'a option \<times> world" where
  "poll lookupFn tableName deadline since w =
     (if clock w < deadline then
        let w1 = sleep POLL_INTERVAL_MS w in
        case lookupFn (clock w1) (store w1) of
          Some result \<Rightarrow> (Some result, w1)
        | None \<Rightarrow>
            (case sync_meta (store w1) tableName of
               Some updated \<Rightarrow>
                 if completed_at updated \<ge> since then (None, w1)
                 else poll lookupFn tableName deadline since w1
             | None \<Rightarrow> poll lookupFn tableName deadline since w1)
      else (None, w))"
  by pat_completeness auto
termination
  by (relation "measure (\<lambda>(lookupFn, tableName, deadline, since, w). nat (deadline - clock w))")
     (auto simp: sleep_def tick_def POLL_INTERVAL_MS_def split: list.splits)

declare poll.simps [simp del]

text \<open>
  Step 2 of \<open>syncIfNeeded\<close>: the metadata read and, when another instance is syncing,
  the first polling loop and the lookup after it. The result is the value returned from
  \<open>syncIfNeeded\<close> at that point, or \<open>None\<close> when control reaches step 3. Other processes
  may act between the end of the loop and the lookup that follows it.
\<close>

definition wait_for_other :: "string \<Rightarrow> (int \<Rightarrow> db \<Rightarrow> 'a option) \<Rightarrow> world \<Rightarrow> 'a option \<times> world" where
  "wait_for_other tableName lookupFn w =
     (let now = clock w in
      case sync_meta (store w) tableName of
        None \<Rightarrow> (None, w)
      | Some m \<Rightarrow>
          if started_at m > completed_at m \<and> now - started_at m < SYNC_TIMEOUT_MS then
            (let deadline = started_at m + SYNC_TIMEOUT_MS in
             case poll lookupFn tableName deadline (started_at m) w of
               (Some result, w1) \<Rightarrow> (Some result, w1)
             | (None, w1) \<Rightarrow> (let w2 = tick w1 in (lookupFn (clock w2) (store w2), w2)))
          else (None, w))"

text \<open>
  Steps 3 to 7. Other processes may act between the metadata read and the claim,
  between the end of the second loop and the final lookup, and while the remote fetch
  is awaited. \<open>apiFetchFn\<close> gets the time at which it is called
  and the store it finally writes to; it returns the message of the error it throws, if
  any, and the store it leaves.
\<close>

definition claim_and_fetch ::
  "string \<Rightarrow> (int \<Rightarrow> db \<Rightarrow> 'a option) \<Rightarrow> (int \<Rightarrow> db \<Rightarrow> string option \<times> db) \<Rightarrow> world
     \<Rightarrow> (error + 'a option) \<times> world" where
  "claim_and_fetch tableName lookupFn apiFetchFn w =
     (let w2 = tick w;
          claimTime = clock w2;
          (changes, d) = cas_claim tableName claimTime (store w2)
      in if changes = 0 then
           (let w3 = w2\<lparr>events := events w2 @ [ClaimLost claimTime]\<rparr>;
                deadline = claimTime + SYNC_TIMEOUT_MS
            in case poll lookupFn tableName deadline claimTime w3 of
                 (Some result, w4) \<Rightarrow> (Inr (Some result), w4)
               | (None, w4) \<Rightarrow>
                   (let w5 = tick w4 in (Inr (lookupFn (clock w5) (store w5)), w5)))
         else
           (let w3 = w2\<lparr>store := d, events := events w2 @ [Claimed claimTime, Refresh]\<rparr>;
                called = clock w3;
                w4 = tick w3
            in case apiFetchFn called (store w4) of
                 (None, d') \<Rightarrow>
                   (let w5 = w4\<lparr>store := mark_completed tableName (clock w4) d'\<rparr>
                    in (Inr (lookupFn (clock w5) (store w5)), w5))
               | (Some msg, d') \<Rightarrow>
                   (Inl (SlackMcpError SYNC_FAILED (''Failed to sync '' @ tableName @ '': '' @ msg)),
                    w4\<lparr>store := reset_lock tableName d'\<rparr>)))"

text \<open>
  Step 1, the lookup that returns at once on a hit, and then steps 2 and 3 to 7. The
  result is \<open>Inl\<close> of the error thrown or \<open>Inr\<close> of the value returned.
\<close>

definition syncIfNeeded ::
  "string \<Rightarrow> (int \<Rightarrow> db \<Rightarrow> 'a option) \<Rightarrow> (int \<Rightarrow> db \<Rightarrow> string option \<times> db) \<Rightarrow> world
     \<Rightarrow> (error + 'a option) \<times> world" where
  "syncIfNeeded tableName lookupFn apiFetchFn w =
     (case lookupFn (clock w) (store w) of
        Some cached \<Rightarrow> (Inr (Some cached), w)
      | None \<Rightarrow>
          (case wait_for_other tableName lookupFn w of
             (Some found, w1) \<Rightarrow> (Inr (Some found), w1)
           | (None, w1) \<Rightarrow> claim_and_fetch tableName lookupFn apiFetchFn w1))"

text \<open>
  Three worlds on the way of a call, named to state what the call does: the world after
  \<open>k\<close> rounds of the polling sleep, the world in which the second loop starts (the others
  have acted and the claim changed no row), and the world in which the awaited refresh
  ends after a claim that changed the row.
\<close>

definition polled :: "nat \<Rightarrow> world \<Rightarrow> world" where
  "polled k w = (sleep POLL_INTERVAL_MS ^^ k) w"

definition lost_start :: "world \<Rightarrow> world" where
  "lost_start w = (let w2 = tick w in w2\<lparr>events := events w2 @ [ClaimLost (clock w2)]\<rparr>)"

definition after_claim :: "string \<Rightarrow> world \<Rightarrow> world" where
  "after_claim tableName w =
     (let w2 = tick w;
          claimTime = clock w2;
          (changes, d) = cas_claim tableName claimTime (store w2)
      in tick (w2\<lparr>store := d, events := events w2 @ [Claimed claimTime, Refresh]\<rparr>))"

section \<open>The entity caches (cache/users.ts, cache/channels.ts)\<close>

text \<open>
  The closure \<open>() => fetchUsers(client)\<close> (and its two siblings) is the parameter
  \<open>fetch\<close>: the remote listing is outside the cache.
\<close>

definition resolveUser ::
  "string \<Rightarrow> (int \<Rightarrow> db \<Rightarrow> string option \<times> db) \<Rightarrow> world \<Rightarrow> (error + string option) \<times> world" where
  "resolveUser name fetch w =
     (case lookupUser name (clock w) (store w) of
        Some cached \<Rightarrow> (Inr (Some cached), w)
      | None \<Rightarrow>
          if \<not> isTableSynced ''users'' w
          then syncIfNeeded ''users'' (lookupUser name) fetch w
          else (Inr None, w))"

definition resolveUserGroup ::
  "string \<Rightarrow> (int \<Rightarrow> db \<Rightarrow> string option \<times> db) \<Rightarrow> world \<Rightarrow> (error + string option) \<times> world" where
  "resolveUserGroup handle fetch w =
     (case lookupUserGroup handle (clock w) (store w) of
        Some cached \<Rightarrow> (Inr (Some cached), w)
      | None \<Rightarrow>
          if \<not> isTableSynced ''user_groups'' w
          then syncIfNeeded ''user_groups'' (lookupUserGroup handle) fetch w
          else (Inr None, w))"

text \<open>\<open>getChannelId\<close> of cache/channels.ts.\<close>

definition getChannelId ::
  "string \<Rightarrow> (int \<Rightarrow> db \<Rightarrow> string option \<times> db) \<Rightarrow> world \<Rightarrow> (error + string option) \<times> world" where
  "getChannelId name fetch w =
     (case lookupChannel name (clock w) (store w) of
        Some cached \<Rightarrow> (Inr (Some cached), w)
      | None \<Rightarrow>
          if \<not> isTableSynced ''channels'' w
          then syncIfNeeded ''channels'' (lookupChannel name) fetch w
          else (Inr None, w))"

text \<open>
  The sources hold a second module with \<open>getChannelId\<close> (the text that follows the
  users and the store module in cache/users.ts): it looks a channel up by name and by
  id and has no \<open>isTableSynced\<close> test. Its functions are modelled under their own names,
  its \<open>getChannelId\<close> with the suffix \<open>_by_id\<close>.
\<close>

definition lookupChannelByName :: "string \<Rightarrow> int \<Rightarrow> db \<Rightarrow> string option" where
  "lookupChannelByName name now d =
     select_id (\<lambda>r. label r = name \<and> synced_at r > now - CACHE_TTL_MS) (channels d)"

definition lookupChannelById :: "string \<Rightarrow> int \<Rightarrow> db \<Rightarrow> string option" where
  "lookupChannelById i now d =
     select_id (\<lambda>r. row_id r = i \<and> synced_at r > now - CACHE_TTL_MS) (channels d)"

definition getChannelId_by_id ::
  "string \<Rightarrow> (int \<Rightarrow> db \<Rightarrow> string option \<times> db) \<Rightarrow> world \<Rightarrow> (error + string option) \<times> world" where
  "getChannelId_by_id input fetch w =
     (case lookupChannelByName input (clock w) (store w) of
        Some byName \<Rightarrow> (Inr (Some byName), w)
      | None \<Rightarrow>
          (case lookupChannelById input (clock w) (store w) of
             Some byId \<Rightarrow> (Inr (Some byId), w)
           | None \<Rightarrow>
               syncIfNeeded ''channels''
                 (\<lambda>now d. case lookupChannelByName input now d of
                             Some i \<Rightarrow> Some i
                           | None \<Rightarrow> lookupChannelById input now d)
                 fetch w))"

section \<open>Mention conversion (mentions/resolver.ts)\<close>

text \<open>
  The regular expression \<^verbatim>\<open>/(?<!\w)@([\w.-]+\w)/g\<close>: an \<open>@\<close> that does not follow a
  word character, then the longest run of word characters, dots and hyphens that ends in
  a word character and has at least two characters. \<open>\w\<close> is \<open>[A-Za-z0-9_]\<close>.
\<close>

definition is_word :: "char \<Rightarrow> bool" where
  "is_word c =
     (c \<in> set (''abcdefghijklmnopqrstuvwxyz'' @ ''ABCDEFGHIJKLMNOPQRSTUVWXYZ'' @ ''0123456789_''))"

definition is_name_char :: "char \<Rightarrow> bool" where
  "is_name_char c = (is_word c \<or> c = CHR ''.'' \<or> c = CHR ''-'')"

text \<open>The capture group \<open>([\w.-]+\w)\<close> matched at the start of \<open>s\<close> (the text after an \<open>@\<close>).\<close>

definition match_name :: "string \<Rightarrow> string option" where
  "match_name s =
     (let run = takeWhile is_name_char s;
          name = rev (dropWhile (\<lambda>c. \<not> is_word c) (rev run))
      in if length name \<ge> 2 then Some name else None)"

text \<open>
  One left-to-right pass of the global regular expression over the message: the matches,
  and between them the characters that belong to no match. \<open>after_word\<close> tells whether
  the character before the current position is a word character (the lookbehind).
\<close>

datatype token = Text char | Mention string

function scan :: "bool \<Rightarrow> string \<Rightarrow> token list" where
  "scan after_word [] = []"
| "scan after_word (c # cs) =
     (if c = CHR ''@'' \<and> \<not> after_word then
        (case match_name cs of
           Some name \<Rightarrow> Mention name # scan True (drop (length name) cs)
         | None \<Rightarrow> Text c # scan (is_word c) cs)
      else Text c # scan (is_word c) cs)"
  by pat_completeness auto
termination
  by (relation "measure (\<lambda>(after_word, s). length s)") auto

text \<open>The \<open>regex.exec\<close> loop: the set of names, in the order of their first match.\<close>

definition mention_names :: "string \<Rightarrow> string list" where
  "mention_names message =
     foldl (\<lambda>names tok. case tok of
                Mention name \<Rightarrow> if name \<in> set names then names else names @ [name]
              | Text c \<Rightarrow> names)
       [] (scan False message)"

text \<open>
  The body of the \<open>map\<close> callback. The two resolvers of the cache are parameters here,
  functions from the name to the id they resolve to; \<open>if (groupId)\<close> and \<open>if (userId)\<close>
  hold for a string that is neither \<open>null\<close> nor empty.
\<close>

definition user_mention :: "(string \<Rightarrow> string option) \<Rightarrow> string \<Rightarrow> string option" where
  "user_mention userOf name =
     (case userOf name of
        Some userId \<Rightarrow> if userId \<noteq> [] then Some (''<@'' @ userId @ ''>'') else None
      | None \<Rightarrow> None)"

definition resolve_mention ::
  "(string \<Rightarrow> string option) \<Rightarrow> (string \<Rightarrow> string option) \<Rightarrow> string \<Rightarrow> string option" where
  "resolve_mention groupOf userOf name =
     (case groupOf name of
        Some groupId \<Rightarrow>
          if groupId \<noteq> [] then Some (''<!subteam^'' @ groupId @ ''>'')
          else user_mention userOf name
      | None \<Rightarrow> user_mention userOf name)"

definition convertMentions ::
  "(string \<Rightarrow> string option) \<Rightarrow> (string \<Rightarrow> string option) \<Rightarrow> string \<Rightarrow> string" where
  "convertMentions groupOf userOf message =
     (if CHR ''@'' \<notin> set message then message
      else
        (let names = mention_names message in
         if names = [] then message
         else
           (let entries = map (\<lambda>name. (name, resolve_mention groupOf userOf name)) names;
                replacements = List.map_filter (\<lambda>(name, r). map_option (Pair name) r) entries
            in if replacements = [] then message
               else concat (map (\<lambda>tok. case tok of
                                   Text c \<Rightarrow> [c]
                                 | Mention name \<Rightarrow>
                                     (case map_of replacements name of
                                        Some r \<Rightarrow> r
                                      | None \<Rightarrow> CHR ''@'' # name))
                              (scan False message)))))"

section \<open>Claims of several callers\<close>


section \<open>Example stores\<close>

text \<open>A store at time \<open>100000000\<close>: in each table the first record was synced exactly
  \<open>CACHE_TTL_MS\<close> ago and the second one millisecond later.\<close>

definition boundary_db :: db where
  "boundary_db =
     \<lparr>channels = [\<lparr>row_id = ''C1'', label = ''general'', synced_at = 13600000\<rparr>,
                  \<lparr>row_id = ''C2'', label = ''random'', synced_at = 13600001\<rparr>],
      users = [\<lparr>row_id = ''U1'', label = ''alice'', synced_at = 13600000\<rparr>,
               \<lparr>row_id = ''U2'', label = ''bob'', synced_at = 13600001\<rparr>],
      user_groups = [\<lparr>row_id = ''S1'', label = ''backend'', synced_at = 13600000\<rparr>,
                     \<lparr>row_id = ''S2'', label = ''frontend'', synced_at = 13600001\<rparr>],
      sync_meta = Map.empty\<rparr>"

text \<open>The store whose only metadata row is \<open>(tableName, s, c)\<close>.\<close>

definition meta_db :: "string \<Rightarrow> int \<Rightarrow> int \<Rightarrow> db" where
  "meta_db tableName s c =
     \<lparr>channels = [], users = [], user_groups = [],
      sync_meta = [tableName \<mapsto> \<lparr>started_at = s, completed_at = c\<rparr>]\<rparr>"

text \<open>A remote fetch that throws.\<close>

definition fetch_fails :: "int \<Rightarrow> db \<Rightarrow> string option \<times> db" where
  "fetch_fails called d = (Some ''boom'', d)"

text \<open>
  A caller that loses the race: at time \<open>1000\<close> it reads an idle row for \<open>users\<close>; before
  its own claim runs, another process claims the row; that process's refresh fails
  while the caller sleeps for the first time, and the row is reset.
\<close>

definition lost_world :: world where
  "lost_world =
     \<lparr>clock = 1000, store = meta_db ''users'' 0 0,
      sched = [\<lparr>delay = 0, act = (\<lambda>d. snd (cas_claim ''users'' 1000 d))\<rparr>,
               \<lparr>delay = 0, act = reset_lock ''users''\<rparr>],
      events = []\<rparr>"

text \<open>
  A caller alone with the store: its claim at time \<open>1000\<close> succeeds and its refresh
  throws \<open>200\<close> ms later.
\<close>

definition fail_world :: world where
  "fail_world =
     \<lparr>clock = 1000, store = meta_db ''users'' 0 0,
      sched = [\<lparr>delay = 0, act = (\<lambda>d. d)\<rparr>, \<lparr>delay = 200, act = (\<lambda>d. d)\<rparr>],
      events = []\<rparr>"

text \<open>
  A waiter: at time \<open>1200\<close> it reads a row claimed at \<open>1000\<close>; while it sleeps for the
  first time the claim holder's refresh fails and the row is reset.
\<close>

definition waiter_world :: world where
  "waiter_world =
     \<lparr>clock = 1200, store = meta_db ''users'' 1000 0,
      sched = [\<lparr>delay = 0, act = reset_lock ''users''\<rparr>],
      events = []\<rparr>"

text \<open>
  The store as \<open>getDb\<close> creates it, with its three seeded rows, of which another
  process claims the one for \<open>users\<close>; the caller asks for a table name without a row.
\<close>

definition no_row_world :: world where
  "no_row_world =
     \<lparr>clock = 100000000, store = empty_db,
      sched = [\<lparr>delay = 0, act = (\<lambda>d. snd (cas_claim ''users'' 100000000 d))\<rparr>],
      events = []\<rparr>"

text \<open>
  A store one of whose syncs completed ten seconds ago: every table holds one fresh
  record and every metadata row is idle.
\<close>

definition fresh_world :: world where
  "fresh_world =
     \<lparr>clock = 100000000,
      store =
        \<lparr>channels = [\<lparr>row_id = ''C2'', label = ''random'', synced_at = 99985000\<rparr>],
         users = [\<lparr>row_id = ''U1'', label = ''alice'', synced_at = 99985000\<rparr>],
         user_groups = [\<lparr>row_id = ''S1'', label = ''backend'', synced_at = 99985000\<rparr>],
         sync_meta = [''channels'' \<mapsto> \<lparr>started_at = 99980000, completed_at = 99990000\<rparr>,
                      ''users'' \<mapsto> \<lparr>started_at = 99980000, completed_at = 99990000\<rparr>,
                      ''user_groups'' \<mapsto> \<lparr>started_at = 99980000, completed_at = 99990000\<rparr>]\<rparr>,
      sched = [], events = []\<rparr>"

text \<open>The record that a refresh of \<open>users\<close> started at time \<open>1000\<close> writes for \<open>alice\<close>.\<close>

definition alice_row :: row where
  "alice_row = \<lparr>row_id = ''U1'', label = ''alice'', synced_at = 1000\<rparr>"

text \<open>
  A caller that loses the race to a winner whose refresh succeeds: while the caller
  sleeps for the first time the winner replaces the table and marks the sync completed.
\<close>

definition landed_world :: world where
  "landed_world =
     \<lparr>clock = 1000, store = meta_db ''users'' 0 0,
      sched = [\<lparr>delay = 0, act = (\<lambda>d. snd (cas_claim ''users'' 1000 d))\<rparr>,
               \<lparr>delay = 0, act = (\<lambda>d. mark_completed ''users'' 1400 (d\<lparr>users := [alice_row]\<rparr>))\<rparr>],
      events = []\<rparr>"

text \<open>
  A caller that loses the race to a winner whose listing has no \<open>alice\<close>: the winner
  marks the sync completed while the caller sleeps, and the record arrives from another
  refresh between the end of the caller's loop and its final lookup.
\<close>

definition late_data_world :: world where
  "late_data_world =
     \<lparr>clock = 1000, store = meta_db ''users'' 0 0,
      sched = [\<lparr>delay = 0, act = (\<lambda>d. snd (cas_claim ''users'' 1000 d))\<rparr>,
               \<lparr>delay = 0, act = mark_completed ''users'' 1400\<rparr>,
               \<lparr>delay = 0, act = (\<lambda>d. d\<lparr>users := [alice_row]\<rparr>)\<rparr>],
      events = []\<rparr>"

text \<open>
  A caller that reads an idle row at time \<open>1000\<close> and runs its claim \<open>600\<close> ms later;
  meanwhile another process has claimed the row with \<open>started_at = 1000\<close>.
\<close>

definition late_loser_world :: world where
  "late_loser_world =
     \<lparr>clock = 1000, store = meta_db ''users'' 0 0,
      sched = [\<lparr>delay = 600, act = (\<lambda>d. snd (cas_claim ''users'' 1000 d))\<rparr>],
      events = []\<rparr>"

section \<open>Record freshness\<close>

lemma select_id_None: "select_id cond rows = None \<longleftrightarrow> (\<forall>r \<in> set rows. \<not> cond r)"
  by (auto simp: select_id_def find_None_iff)

lemma select_id_Some:
  "select_id cond rows = Some i \<Longrightarrow> \<exists>r \<in> set rows. cond r \<and> row_id r = i"
  by (auto simp: select_id_def find_Some_iff)

lemma select_id_hit:
  assumes "r \<in> set rows" and "cond r"
  shows "\<exists>r' \<in> set rows. cond r' \<and> select_id cond rows = Some (row_id r')"
proof (cases "select_id cond rows")
  case None
  with assms show ?thesis by (simp add: select_id_None)
next
  case (Some i)
  then show ?thesis using select_id_Some by fastforce
qed

text \<open>
  C8. The three lookups compare \<open>synced_at\<close> strictly against \<open>now - CACHE_TTL_MS\<close>: a
  lookup misses exactly when every record with the requested label has
  \<open>synced_at \<le> now - CACHE_TTL_MS\<close>, and a hit is the id of a record with that label and
  \<open>synced_at > now - CACHE_TTL_MS\<close>. So when every record with the label was synced
  exactly \<open>CACHE_TTL_MS\<close> ago the lookup misses, and a record synced at
  \<open>now - CACHE_TTL_MS + 1\<close> gives a hit.
\<close>

theorem ttl_boundary_strict:
  "(lookupUser n now d = None)
      = (\<forall>r \<in> set (users d). label r = n \<longrightarrow> synced_at r \<le> now - CACHE_TTL_MS)
   \<and> (lookupUserGroup n now d = None)
      = (\<forall>r \<in> set (user_groups d). label r = n \<longrightarrow> synced_at r \<le> now - CACHE_TTL_MS)
   \<and> (lookupChannel n now d = None)
      = (\<forall>r \<in> set (channels d). label r = n \<longrightarrow> synced_at r \<le> now - CACHE_TTL_MS)
   \<and> (lookupUser n now d = Some i \<longrightarrow>
        (\<exists>r \<in> set (users d). label r = n \<and> now - CACHE_TTL_MS < synced_at r \<and> row_id r = i))
   \<and> (lookupUserGroup n now d = Some i \<longrightarrow>
        (\<exists>r \<in> set (user_groups d). label r = n \<and> now - CACHE_TTL_MS < synced_at r \<and> row_id r = i))
   \<and> (lookupChannel n now d = Some i \<longrightarrow>
        (\<exists>r \<in> set (channels d). label r = n \<and> now - CACHE_TTL_MS < synced_at r \<and> row_id r = i))
   \<and> ((\<forall>r \<in> set (users d). label r = n \<longrightarrow> synced_at r = now - CACHE_TTL_MS)
      \<longrightarrow> lookupUser n now d = None)
   \<and> ((\<forall>r \<in> set (user_groups d). label r = n \<longrightarrow> synced_at r = now - CACHE_TTL_MS)
      \<longrightarrow> lookupUserGroup n now d = None)
   \<and> ((\<forall>r \<in> set (channels d). label r = n \<longrightarrow> synced_at r = now - CACHE_TTL_MS)
      \<longrightarrow> lookupChannel n now d = None)
   \<and> ((\<exists>r \<in> set (users d). label r = n' \<and> synced_at r = now - CACHE_TTL_MS + 1)
      \<longrightarrow> (\<exists>r \<in> set (users d). label r = n' \<and> lookupUser n' now d = Some (row_id r)))
   \<and> ((\<exists>r \<in> set (user_groups d). label r = n' \<and> synced_at r = now - CACHE_TTL_MS + 1)
      \<longrightarrow> (\<exists>r \<in> set (user_groups d). label r = n' \<and> lookupUserGroup n' now d = Some (row_id r)))
   \<and> ((\<exists>r \<in> set (channels d). label r = n' \<and> synced_at r = now - CACHE_TTL_MS + 1)
      \<longrightarrow> (\<exists>r \<in> set (channels d). label r = n' \<and> lookupChannel n' now d = Some (row_id r)))"
proof -
  have miss: "(select_id (\<lambda>r. label r = n \<and> synced_at r > now - CACHE_TTL_MS) rows = None)
      = (\<forall>r \<in> set rows. label r = n \<longrightarrow> synced_at r \<le> now - CACHE_TTL_MS)" for rows n
    by (auto simp: select_id_None)
  have hit: "\<exists>r \<in> set rows. label r = n \<and> now - CACHE_TTL_MS < synced_at r \<and> row_id r = i"
    if "select_id (\<lambda>r. label r = n \<and> synced_at r > now - CACHE_TTL_MS) rows = Some i" for rows n
    using select_id_Some [OF that] by blast
  have stale: "select_id (\<lambda>r. label r = n \<and> synced_at r > now - CACHE_TTL_MS) rows = None"
    if "\<forall>r \<in> set rows. label r = n \<longrightarrow> synced_at r = now - CACHE_TTL_MS" for rows n
    using that by (auto simp: select_id_None)
  have fresh: "\<exists>r \<in> set rows. label r = n
      \<and> select_id (\<lambda>r. label r = n \<and> synced_at r > now - CACHE_TTL_MS) rows = Some (row_id r)"
    if "\<exists>r \<in> set rows. label r = n \<and> synced_at r = now - CACHE_TTL_MS + 1" for rows n
  proof -
    from that obtain r where r: "r \<in> set rows" "label r = n" "synced_at r = now - CACHE_TTL_MS + 1"
      by blast
    then have "label r = n \<and> synced_at r > now - CACHE_TTL_MS" by simp
    from select_id_hit [OF r(1), of "\<lambda>r. label r = n \<and> synced_at r > now - CACHE_TTL_MS", OF this]
    show ?thesis by blast
  qed
  show ?thesis
    unfolding lookupUser_def lookupUserGroup_def lookupChannel_def
    by (intro conjI impI miss hit stale fresh) assumption+
qed

theorem ttl_boundary_strict_witness:
  "map synced_at (filter (\<lambda>r. label r = ''alice'') (users boundary_db)) = [100000000 - CACHE_TTL_MS]
   \<and> map synced_at (filter (\<lambda>r. label r = ''bob'') (users boundary_db)) = [100000000 - CACHE_TTL_MS + 1]
   \<and> lookupUser ''alice'' 100000000 boundary_db = None
   \<and> lookupUser ''bob'' 100000000 boundary_db = Some ''U2''
   \<and> lookupUserGroup ''backend'' 100000000 boundary_db = None
   \<and> lookupUserGroup ''frontend'' 100000000 boundary_db = Some ''S2''
   \<and> lookupChannel ''general'' 100000000 boundary_db = None
   \<and> lookupChannel ''random'' 100000000 boundary_db = Some ''C2''"
  using ttl_boundary_strict [of "''alice''" 100000000 boundary_db "''U2''" "''bob''"]
    ttl_boundary_strict [of "''backend''" 100000000 boundary_db "''S2''" "''frontend''"]
    ttl_boundary_strict [of "''general''" 100000000 boundary_db "''C2''" "''random''"]
    ttl_boundary_strict [of "''bob''" 100000000 boundary_db "''U2''" "''bob''"]
    ttl_boundary_strict [of "''frontend''" 100000000 boundary_db "''S2''" "''frontend''"]
    ttl_boundary_strict [of "''random''" 100000000 boundary_db "''C2''" "''random''"]
  by (simp add: boundary_db_def CACHE_TTL_MS_def)

section \<open>The compare-and-set claim\<close>





section \<open>The coordinator: what one call does\<close>

lemma tick_events: "events (tick w) = events w"
  by (simp add: tick_def split: list.splits)

lemma sleep_events: "events (sleep ms w) = events w @ [Slept]"
  by (simp add: sleep_def tick_def split: list.splits)

lemma sleep_clock: "clock w + ms \<le> clock (sleep ms w)"
  by (simp add: sleep_def tick_def split: list.splits)

lemma poll_spec:
  "poll f t dl s w = (res, w') \<Longrightarrow>
     (\<exists>k. events w' = events w @ replicate k Slept)
     \<and> clock w \<le> clock w'
     \<and> (case res of
          Some v \<Rightarrow> f (clock w') (store w') = Some v
        | None \<Rightarrow> f (clock w') (store w') = None \<and> (\<exists>m. sync_meta (store w') t = Some m \<and> s \<le> completed_at m)
                  \<or> dl \<le> clock w')"
proof (induction f t dl s w arbitrary: res w' rule: poll.induct)
  case (1 f t dl s w)
  show ?case
  proof (cases "clock w < dl")
    case False
    with "1.prems" have "res = None" "w' = w" by (simp_all add: poll.simps [of f t dl s w])
    with False show ?thesis by simp
  next
    case True
    define w1 where "w1 = sleep POLL_INTERVAL_MS w"
    have ev1: "events w1 = events w @ [Slept]" by (simp add: w1_def sleep_events)
    have cl1: "clock w \<le> clock w1"
      using sleep_clock [of w POLL_INTERVAL_MS] by (simp add: w1_def POLL_INTERVAL_MS_def)
    show ?thesis
    proof (cases "f (clock w1) (store w1)")
      case (Some v)
      with True "1.prems" have "res = Some v" "w' = w1"
        by (simp_all add: poll.simps [of f t dl s w] w1_def Let_def)
      with Some ev1 cl1 show ?thesis by (auto intro: exI [of _ 1])
    next
      case None
      show ?thesis
      proof (cases "\<exists>m. sync_meta (store w1) t = Some m \<and> s \<le> completed_at m")
        case True
        with \<open>clock w < dl\<close> None "1.prems" have "res = None" "w' = w1"
          by (auto simp: poll.simps [of f t dl s w] w1_def Let_def)
        with None True ev1 cl1 show ?thesis by (auto intro: exI [of _ 1])
      next
        case False
        with \<open>clock w < dl\<close> None "1.prems" have rec: "poll f t dl s w1 = (res, w')"
          by (auto simp: poll.simps [of f t dl s w] w1_def Let_def split: option.splits)
        have ih: "(\<exists>k. events w' = events w1 @ replicate k Slept)
           \<and> clock w1 \<le> clock w'
           \<and> (case res of
                Some v \<Rightarrow> f (clock w') (store w') = Some v
              | None \<Rightarrow> f (clock w') (store w') = None \<and> (\<exists>m. sync_meta (store w') t = Some m \<and> s \<le> completed_at m)
                  \<or> dl \<le> clock w')"
        proof (cases "sync_meta (store w1) t")
          case None': None
          from "1.IH"(1) [OF \<open>clock w < dl\<close> w1_def None None' rec] show ?thesis .
        next
          case (Some m)
          with False have "\<not> s \<le> completed_at m" by simp
          from "1.IH"(2) [OF \<open>clock w < dl\<close> w1_def None Some this rec] show ?thesis .
        qed
        then obtain k where "events w' = events w1 @ replicate k Slept" by blast
        then have "events w' = events w @ replicate (Suc k) Slept"
          by (simp add: ev1 replicate_append_same)
        with ih cl1 show ?thesis by (auto simp del: replicate_Suc)
      qed
    qed
  qed
qed


lemma reset_lock_idle:
  "sync_meta (reset_lock t d) t = Some m \<Longrightarrow> started_at m = completed_at m"
  by (auto simp: reset_lock_def split: option.splits)

lemma tick_clock: "clock w \<le> clock (tick w)"
  by (simp add: tick_def split: list.splits)

lemma polled_Suc: "polled (Suc k) w = polled k (sleep POLL_INTERVAL_MS w)"
  by (simp add: polled_def funpow_swap1)

lemma polled_events: "events (polled k w) = events w @ replicate k Slept"
proof (induction k arbitrary: w)
  case 0
  show ?case by (simp add: polled_def)
next
  case (Suc k)
  have "events (polled (Suc k) w) = (events w @ [Slept]) @ replicate k Slept"
    by (simp only: polled_Suc Suc sleep_events)
  then show ?case by (simp add: replicate_append_same)
qed

text \<open>
  The loop stops at the first round at which the lookup hits, or \<open>completed_at\<close> has
  reached \<open>since\<close>, or the deadline has passed.
\<close>

lemma poll_trace:
  "poll f t dl s w = (res, w') \<Longrightarrow>
     \<exists>j. w' = polled j w
       \<and> (\<forall>i<j. clock (polled i w) < dl)
       \<and> (\<forall>i. 0 < i \<and> i < j \<longrightarrow>
             f (clock (polled i w)) (store (polled i w)) = None
             \<and> (\<forall>m. sync_meta (store (polled i w)) t = Some m \<longrightarrow> completed_at m < s))
       \<and> (case res of
            Some v \<Rightarrow> 0 < j \<and> f (clock w') (store w') = Some v
          | None \<Rightarrow>
              (0 < j \<longrightarrow> f (clock w') (store w') = None)
              \<and> (dl \<le> clock w'
                 \<or> (0 < j \<and> (\<exists>m. sync_meta (store w') t = Some m \<and> s \<le> completed_at m))))"
proof (induction f t dl s w arbitrary: res w' rule: poll.induct)
  case (1 f t dl s w)
  show ?case
  proof (cases "clock w < dl")
    case False
    with "1.prems" have "res = None" "w' = w" by (simp_all add: poll.simps [of f t dl s w])
    with False show ?thesis by (intro exI [of _ 0]) (simp add: polled_def)
  next
    case True
    define w1 where "w1 = sleep POLL_INTERVAL_MS w"
    have p1: "polled (Suc 0) w = w1" by (simp add: polled_def w1_def)
    show ?thesis
    proof (cases "f (clock w1) (store w1)")
      case (Some v)
      with True "1.prems" have "res = Some v" "w' = w1"
        by (simp_all add: poll.simps [of f t dl s w] w1_def Let_def)
      with Some True p1 show ?thesis
        by (intro exI [of _ "Suc 0"]) (simp add: polled_def)
    next
      case None
      show ?thesis
      proof (cases "\<exists>m. sync_meta (store w1) t = Some m \<and> s \<le> completed_at m")
        case stop: True
        with True None "1.prems" have "res = None" "w' = w1"
          by (auto simp: poll.simps [of f t dl s w] w1_def Let_def)
        with None stop True p1 show ?thesis
          by (intro exI [of _ "Suc 0"]) (simp add: polled_def)
      next
        case False
        with True None "1.prems" have rec: "poll f t dl s w1 = (res, w')"
          by (auto simp: poll.simps [of f t dl s w] w1_def Let_def split: option.splits)
        have "\<exists>j. w' = polled j w1
           \<and> (\<forall>i<j. clock (polled i w1) < dl)
           \<and> (\<forall>i. 0 < i \<and> i < j \<longrightarrow>
                 f (clock (polled i w1)) (store (polled i w1)) = None
                 \<and> (\<forall>m. sync_meta (store (polled i w1)) t = Some m \<longrightarrow> completed_at m < s))
           \<and> (case res of
                Some v \<Rightarrow> 0 < j \<and> f (clock w') (store w') = Some v
              | None \<Rightarrow>
                  (0 < j \<longrightarrow> f (clock w') (store w') = None)
                  \<and> (dl \<le> clock w'
                     \<or> (0 < j \<and> (\<exists>m. sync_meta (store w') t = Some m \<and> s \<le> completed_at m))))"
        proof (cases "sync_meta (store w1) t")
          case None': None
          from "1.IH"(1) [OF True w1_def None None' rec] show ?thesis .
        next
          case (Some m)
          with False have "\<not> s \<le> completed_at m" by simp
          from "1.IH"(2) [OF True w1_def None Some this rec] show ?thesis .
        qed
        then obtain j where w': "w' = polled j w1"
          and before: "\<forall>i<j. clock (polled i w1) < dl"
          and quiet: "\<forall>i. 0 < i \<and> i < j \<longrightarrow>
                 f (clock (polled i w1)) (store (polled i w1)) = None
                 \<and> (\<forall>m. sync_meta (store (polled i w1)) t = Some m \<longrightarrow> completed_at m < s)"
          and last: "case res of
                Some v \<Rightarrow> 0 < j \<and> f (clock w') (store w') = Some v
              | None \<Rightarrow>
                  (0 < j \<longrightarrow> f (clock w') (store w') = None)
                  \<and> (dl \<le> clock w'
                     \<or> (0 < j \<and> (\<exists>m. sync_meta (store w') t = Some m \<and> s \<le> completed_at m)))"
          by blast
        have shift: "polled (Suc i) w = polled i w1" for i
          by (simp only: polled_Suc w1_def)
        have w1_quiet: "f (clock w1) (store w1) = None
            \<and> (\<forall>m. sync_meta (store w1) t = Some m \<longrightarrow> completed_at m < s)"
          using None False by auto
        have a: "w' = polled (Suc j) w" by (simp only: shift w')
        have b: "\<forall>i<Suc j. clock (polled i w) < dl"
        proof (intro allI impI)
          fix i assume "i < Suc j"
          show "clock (polled i w) < dl"
          proof (cases i)
            case 0
            with True show ?thesis by (simp add: polled_def)
          next
            case (Suc i')
            with \<open>i < Suc j\<close> before show ?thesis by (simp add: shift)
          qed
        qed
        have c: "\<forall>i. 0 < i \<and> i < Suc j \<longrightarrow>
             f (clock (polled i w)) (store (polled i w)) = None
             \<and> (\<forall>m. sync_meta (store (polled i w)) t = Some m \<longrightarrow> completed_at m < s)"
        proof (intro allI impI)
          fix i assume i: "0 < i \<and> i < Suc j"
          then obtain i' where i': "i = Suc i'" "i' < j" by (cases i) auto
          show "f (clock (polled i w)) (store (polled i w)) = None
             \<and> (\<forall>m. sync_meta (store (polled i w)) t = Some m \<longrightarrow> completed_at m < s)"
          proof (cases i')
            case 0
            with i' w1_quiet show ?thesis by (simp only: shift) (simp add: polled_def)
          next
            case (Suc k)
            then have "0 < i' \<and> i' < j" using i' by simp
            with quiet have "f (clock (polled i' w1)) (store (polled i' w1)) = None
                 \<and> (\<forall>m. sync_meta (store (polled i' w1)) t = Some m \<longrightarrow> completed_at m < s)"
              by blast
            with i' show ?thesis by (simp add: shift)
          qed
        qed
        have d: "case res of
            Some v \<Rightarrow> 0 < Suc j \<and> f (clock w') (store w') = Some v
          | None \<Rightarrow>
              (0 < Suc j \<longrightarrow> f (clock w') (store w') = None)
              \<and> (dl \<le> clock w'
                 \<or> (0 < Suc j \<and> (\<exists>m. sync_meta (store w') t = Some m \<and> s \<le> completed_at m)))"
        proof (cases j)
          case 0
          with w' have "w' = w1" by (simp add: polled_def)
          with last 0 w1_quiet show ?thesis by (auto split: option.splits)
        next
          case (Suc k)
          with last show ?thesis by (auto split: option.splits)
        qed
        from a b c d show ?thesis by blast
      qed
    qed
  qed
qed

lemma wait_for_other_spec:
  assumes "wait_for_other t f w = (res, w1)"
  shows "(\<exists>k. events w1 = events w @ replicate k Slept)
     \<and> clock w \<le> clock w1
     \<and> (\<forall>v. res = Some v \<longrightarrow> f (clock w1) (store w1) = Some v)"
proof (cases "\<exists>m. sync_meta (store w) t = Some m \<and> started_at m > completed_at m
                     \<and> clock w - started_at m < SYNC_TIMEOUT_MS")
  case False
  with assms have "res = None" "w1 = w"
    by (auto simp: wait_for_other_def Let_def split: option.splits if_splits)
  then show ?thesis by simp
next
  case True
  then obtain m where m: "sync_meta (store w) t = Some m" "started_at m > completed_at m"
      "clock w - started_at m < SYNC_TIMEOUT_MS" by blast
  obtain pr pw where p: "poll f t (started_at m + SYNC_TIMEOUT_MS) (started_at m) w = (pr, pw)"
    by (cases "poll f t (started_at m + SYNC_TIMEOUT_MS) (started_at m) w")
  from poll_spec [OF p] have ps:
    "\<exists>k. events pw = events w @ replicate k Slept" "clock w \<le> clock pw"
    "\<forall>v. pr = Some v \<longrightarrow> f (clock pw) (store pw) = Some v"
    by (auto split: option.splits)
  show ?thesis
  proof (cases pr)
    case (Some v)
    with assms m p have "w1 = pw" "res = Some v"
      by (auto simp: wait_for_other_def Let_def)
    with ps Some show ?thesis by simp
  next
    case None
    with assms m p have "w1 = tick pw" "res = f (clock (tick pw)) (store (tick pw))"
      by (auto simp: wait_for_other_def Let_def)
    with ps tick_clock [of pw] show ?thesis by (auto simp: tick_events)
  qed
qed

lemma claim_and_fetch_lost_trace:
  assumes lost: "fst (cas_claim t (clock (tick w)) (store (tick w))) = 0"
    and run: "claim_and_fetch t f a w = (r, w')"
  shows "\<exists>j>0.
      (\<forall>i. 0 < i \<and> i < j \<longrightarrow>
         f (clock (polled i (lost_start w))) (store (polled i (lost_start w))) = None
         \<and> (\<forall>m. sync_meta (store (polled i (lost_start w))) t = Some m
               \<longrightarrow> completed_at m < clock (tick w))
         \<and> clock (polled i (lost_start w)) < clock (tick w) + SYNC_TIMEOUT_MS)
      \<and> ((\<exists>v. f (clock (polled j (lost_start w))) (store (polled j (lost_start w))) = Some v
              \<and> r = Inr (Some v) \<and> w' = polled j (lost_start w))
         \<or> (f (clock (polled j (lost_start w))) (store (polled j (lost_start w))) = None
            \<and> ((\<exists>m. sync_meta (store (polled j (lost_start w))) t = Some m
                    \<and> clock (tick w) \<le> completed_at m)
               \<or> clock (tick w) + SYNC_TIMEOUT_MS \<le> clock (polled j (lost_start w)))
            \<and> w' = tick (polled j (lost_start w))
            \<and> r = Inr (f (clock w') (store w'))))"
proof -
  let ?ct = "clock (tick w)"
  let ?L = "lost_start w"
  have L: "?L = (tick w)\<lparr>events := events (tick w) @ [ClaimLost ?ct]\<rparr>"
    by (simp add: lost_start_def Let_def)
  have clockL: "clock ?L = ?ct" by (simp add: L)
  obtain pr pw where p: "poll f t (?ct + SYNC_TIMEOUT_MS) ?ct ?L = (pr, pw)"
    by (cases "poll f t (?ct + SYNC_TIMEOUT_MS) ?ct ?L")
  from lost run p have res:
    "w' = (case pr of Some v \<Rightarrow> pw | None \<Rightarrow> tick pw)"
    "r = (case pr of Some v \<Rightarrow> Inr (Some v)
          | None \<Rightarrow> Inr (f (clock (tick pw)) (store (tick pw))))"
    by (auto simp: claim_and_fetch_def Let_def L split: prod.splits option.splits)
  from poll_trace [OF p] obtain j where pw: "pw = polled j ?L"
    and before: "\<forall>i<j. clock (polled i ?L) < ?ct + SYNC_TIMEOUT_MS"
    and quiet: "\<forall>i. 0 < i \<and> i < j \<longrightarrow>
             f (clock (polled i ?L)) (store (polled i ?L)) = None
             \<and> (\<forall>m. sync_meta (store (polled i ?L)) t = Some m \<longrightarrow> completed_at m < ?ct)"
    and last: "case pr of
            Some v \<Rightarrow> 0 < j \<and> f (clock pw) (store pw) = Some v
          | None \<Rightarrow>
              (0 < j \<longrightarrow> f (clock pw) (store pw) = None)
              \<and> (?ct + SYNC_TIMEOUT_MS \<le> clock pw
                 \<or> (0 < j \<and> (\<exists>m. sync_meta (store pw) t = Some m \<and> ?ct \<le> completed_at m)))"
    by blast
  have pos: "0 < j"
  proof (rule ccontr)
    assume "\<not> 0 < j"
    then have "j = 0" by simp
    with pw have "pw = ?L" by (simp add: polled_def)
    with last \<open>j = 0\<close> clockL show False
      by (auto simp: SYNC_TIMEOUT_MS_def split: option.splits)
  qed
  have mid: "\<forall>i. 0 < i \<and> i < j \<longrightarrow>
         f (clock (polled i ?L)) (store (polled i ?L)) = None
         \<and> (\<forall>m. sync_meta (store (polled i ?L)) t = Some m \<longrightarrow> completed_at m < ?ct)
         \<and> clock (polled i ?L) < ?ct + SYNC_TIMEOUT_MS"
    using before quiet by simp
  have fin: "(\<exists>v. f (clock (polled j ?L)) (store (polled j ?L)) = Some v
              \<and> r = Inr (Some v) \<and> w' = polled j ?L)
         \<or> (f (clock (polled j ?L)) (store (polled j ?L)) = None
            \<and> ((\<exists>m. sync_meta (store (polled j ?L)) t = Some m \<and> ?ct \<le> completed_at m)
               \<or> ?ct + SYNC_TIMEOUT_MS \<le> clock (polled j ?L))
            \<and> w' = tick (polled j ?L)
            \<and> r = Inr (f (clock w') (store w')))"
    using last pos res pw by (auto split: option.splits)
  from pos mid fin show ?thesis by blast
qed

lemma claim_and_fetch_lost:
  assumes "fst (cas_claim t (clock (tick w)) (store (tick w))) = 0"
    and "claim_and_fetch t f a w = (r, w')"
  shows "(\<exists>j. events w' = events w @ ClaimLost (clock (tick w)) # replicate j Slept)
     \<and> r = Inr (f (clock w') (store w'))
     \<and> clock (tick w) \<le> clock w'"
proof -
  have evL: "events (polled j (lost_start w))
      = events w @ ClaimLost (clock (tick w)) # replicate j Slept" for j
    by (simp add: polled_events lost_start_def Let_def tick_events)
  have clL: "clock (tick w) \<le> clock (polled j (lost_start w))" for j
  proof (induction j)
    case 0
    show ?case by (simp add: polled_def lost_start_def Let_def)
  next
    case (Suc j)
    have "polled (Suc j) (lost_start w) = sleep POLL_INTERVAL_MS (polled j (lost_start w))"
      by (simp add: polled_def)
    with Suc sleep_clock [of "polled j (lost_start w)" POLL_INTERVAL_MS] show ?case
      by (simp add: POLL_INTERVAL_MS_def)
  qed
  from claim_and_fetch_lost_trace [OF assms] obtain j where
    "(\<exists>v. f (clock (polled j (lost_start w))) (store (polled j (lost_start w))) = Some v
              \<and> r = Inr (Some v) \<and> w' = polled j (lost_start w))
         \<or> (w' = tick (polled j (lost_start w)) \<and> r = Inr (f (clock w') (store w')))"
    by blast
  then show ?thesis
  proof
    assume "\<exists>v. f (clock (polled j (lost_start w))) (store (polled j (lost_start w))) = Some v
              \<and> r = Inr (Some v) \<and> w' = polled j (lost_start w)"
    with evL [of j] clL [of j] show ?thesis by auto
  next
    assume "w' = tick (polled j (lost_start w)) \<and> r = Inr (f (clock w') (store w'))"
    with evL [of j] clL [of j] tick_clock [of "polled j (lost_start w)"] show ?thesis
      by (auto simp: tick_events)
  qed
qed

lemma claim_and_fetch_won:
  assumes "fst (cas_claim t (clock (tick w)) (store (tick w))) \<noteq> 0"
    and "claim_and_fetch t f a w = (r, w')"
  shows "events w' = events w @ [Claimed (clock (tick w)), Refresh]
     \<and> (r = Inr (f (clock w') (store w'))
        \<or> (\<exists>msg. r = Inl (SlackMcpError SYNC_FAILED (''Failed to sync '' @ t @ '': '' @ msg))
              \<and> (\<exists>called d d'. a called d = (Some msg, d'))
              \<and> (\<forall>m. sync_meta (store w') t = Some m \<longrightarrow> started_at m = completed_at m)))"
  using assms
  by (auto simp: claim_and_fetch_def Let_def tick_events reset_lock_idle
           split: prod.splits option.splits)

text \<open>A claimed refresh that throws: the error is raised and the lock is reset.\<close>

lemma claim_and_fetch_throws:
  assumes "fst (cas_claim t (clock (tick w)) (store (tick w))) \<noteq> 0"
    and "a (clock (tick w)) (store (after_claim t w)) = (Some msg, d')"
  shows "claim_and_fetch t f a w =
     (Inl (SlackMcpError SYNC_FAILED (''Failed to sync '' @ t @ '': '' @ msg)),
      (after_claim t w)\<lparr>store := reset_lock t d'\<rparr>)"
  using assms
  by (auto simp: claim_and_fetch_def after_claim_def Let_def split: prod.splits)

lemmas run_defs = syncIfNeeded_def wait_for_other_def claim_and_fetch_def cas_claim_def
  mark_completed_def reset_lock_def tick_def sleep_def meta_db_def lookupUser_def select_id_def
  Let_def SYNC_TIMEOUT_MS_def POLL_INTERVAL_MS_def poll.simps

lemma lost_run: "syncIfNeeded ''users'' (lookupUser ''alice'') fetch_fails lost_world =
   (Inr None, \<lparr>clock = 31000, store = meta_db ''users'' 0 0, sched = [],
      events = ClaimLost 1000 # replicate 60 Slept\<rparr>)"
  by (simp add: lost_world_def run_defs fetch_fails_def eval_nat_numeral)

lemma count_list_replicate: "count_list (replicate k x) y = (if x = y then k else 0)"
  by (induction k) auto

lemma landed_run:
  "syncIfNeeded ''users'' (lookupUser ''alice'') fetch_fails landed_world =
     (Inr (Some ''U1''),
      \<lparr>clock = 1500,
       store = \<lparr>channels = [], users = [alice_row], user_groups = [],
                sync_meta = [''users'' \<mapsto> \<lparr>started_at = 1000, completed_at = 1400\<rparr>]\<rparr>,
       sched = [], events = [ClaimLost 1000, Slept]\<rparr>)"
  by (simp add: landed_world_def alice_row_def run_defs fetch_fails_def CACHE_TTL_MS_def)

lemma late_data_run:
  "syncIfNeeded ''users'' (lookupUser ''alice'') fetch_fails late_data_world =
     (Inr (Some ''U1''),
      \<lparr>clock = 1500,
       store = \<lparr>channels = [], users = [alice_row], user_groups = [],
                sync_meta = [''users'' \<mapsto> \<lparr>started_at = 1000, completed_at = 1400\<rparr>]\<rparr>,
       sched = [], events = [ClaimLost 1000, Slept]\<rparr>)"
  by (simp add: late_data_world_def alice_row_def run_defs fetch_fails_def CACHE_TTL_MS_def)

lemma late_loser_run:
  "syncIfNeeded ''users'' (lookupUser ''alice'') fetch_fails late_loser_world =
     (Inr None, \<lparr>clock = 31600, store = meta_db ''users'' 1000 0, sched = [],
        events = ClaimLost 1600 # replicate 60 Slept\<rparr>)"
  by (simp add: late_loser_world_def run_defs fetch_fails_def eval_nat_numeral)

text \<open>
  C4 (amended). A call of \<open>syncIfNeeded\<close> invokes the refresh at most once. When its
  claim, made at \<open>claimTime\<close>, affects zero rows it invokes no refresh. It polls against
  its own claim time: it sleeps at least once; at every round before the last the lookup
  missed, \<open>completed_at\<close> was below \<open>claimTime\<close> and the clock was below
  \<open>claimTime + SYNC_TIMEOUT_MS\<close>; at the last round either the lookup hits and the call
  returns that hit, or the lookup misses and \<open>completed_at\<close> has reached \<open>claimTime\<close> or
  the clock has reached \<open>claimTime + SYNC_TIMEOUT_MS\<close>, and the call returns the final
  lookup, made after the others had one more chance to act.
\<close>

theorem refresh_at_most_once:
  assumes run: "syncIfNeeded t f a w = (r, w')"
  shows "(\<exists>new. events w' = events w @ new \<and> count_list new Refresh \<le> 1)
     \<and> (f (clock w) (store w) = None \<longrightarrow> wait_for_other t f w = (None, w1) \<longrightarrow>
          fst (cas_claim t (clock (tick w1)) (store (tick w1))) = 0 \<longrightarrow>
            (\<exists>k. \<exists>j>0.
               events w' =
                 events w @ replicate k Slept @ ClaimLost (clock (tick w1)) # replicate j Slept
               \<and> (\<forall>i. 0 < i \<and> i < j \<longrightarrow>
                    f (clock (polled i (lost_start w1))) (store (polled i (lost_start w1))) = None
                    \<and> (\<forall>m. sync_meta (store (polled i (lost_start w1))) t = Some m
                          \<longrightarrow> completed_at m < clock (tick w1))
                    \<and> clock (polled i (lost_start w1)) < clock (tick w1) + SYNC_TIMEOUT_MS)
               \<and> ((\<exists>v. f (clock (polled j (lost_start w1))) (store (polled j (lost_start w1)))
                          = Some v
                        \<and> r = Inr (Some v) \<and> w' = polled j (lost_start w1))
                  \<or> (f (clock (polled j (lost_start w1))) (store (polled j (lost_start w1)))
                        = None
                     \<and> ((\<exists>m. sync_meta (store (polled j (lost_start w1))) t = Some m
                             \<and> clock (tick w1) \<le> completed_at m)
                        \<or> clock (tick w1) + SYNC_TIMEOUT_MS
                             \<le> clock (polled j (lost_start w1)))
                     \<and> w' = tick (polled j (lost_start w1))
                     \<and> r = Inr (f (clock w') (store w'))))))"
proof (cases "f (clock w) (store w)")
  case (Some v)
  with run have "w' = w" by (simp add: syncIfNeeded_def)
  with Some show ?thesis by simp
next
  case None
  obtain res wa where wf: "wait_for_other t f w = (res, wa)"
    by (cases "wait_for_other t f w")
  from wait_for_other_spec [OF wf] obtain k where k: "events wa = events w @ replicate k Slept"
    by blast
  show ?thesis
  proof (cases res)
    case (Some v)
    with run None wf have "w' = wa" by (simp add: syncIfNeeded_def)
    with k have "events w' = events w @ replicate k Slept \<and> count_list (replicate k Slept) Refresh \<le> 1"
      by (simp add: count_list_replicate)
    then have "\<exists>new. events w' = events w @ new \<and> count_list new Refresh \<le> 1" by blast
    with Some wf show ?thesis by simp
  next
    case no_hit: None
    with run None wf have cf: "claim_and_fetch t f a wa = (r, w')"
      by (simp add: syncIfNeeded_def)
    show ?thesis
    proof (cases "fst (cas_claim t (clock (tick wa)) (store (tick wa))) = 0")
      case True
      let ?L = "lost_start wa"
      let ?ct = "clock (tick wa)"
      have evL: "events (polled j ?L) = events wa @ ClaimLost ?ct # replicate j Slept" for j
        by (simp add: polled_events lost_start_def Let_def tick_events)
      from claim_and_fetch_lost_trace [OF True cf] obtain j where pos: "0 < j"
        and mid: "\<forall>i. 0 < i \<and> i < j \<longrightarrow>
           f (clock (polled i ?L)) (store (polled i ?L)) = None
           \<and> (\<forall>m. sync_meta (store (polled i ?L)) t = Some m \<longrightarrow> completed_at m < ?ct)
           \<and> clock (polled i ?L) < ?ct + SYNC_TIMEOUT_MS"
        and fin: "(\<exists>v. f (clock (polled j ?L)) (store (polled j ?L)) = Some v
                      \<and> r = Inr (Some v) \<and> w' = polled j ?L)
           \<or> (f (clock (polled j ?L)) (store (polled j ?L)) = None
              \<and> ((\<exists>m. sync_meta (store (polled j ?L)) t = Some m \<and> ?ct \<le> completed_at m)
                 \<or> ?ct + SYNC_TIMEOUT_MS \<le> clock (polled j ?L))
              \<and> w' = tick (polled j ?L)
              \<and> r = Inr (f (clock w') (store w')))"
        by blast
      from fin have "events w' = events (polled j ?L)" by (auto simp: tick_events)
      with evL [of j] k have ev: "events w' =
          events w @ replicate k Slept @ ClaimLost ?ct # replicate j Slept" by simp
      have "count_list (replicate k Slept @ ClaimLost ?ct # replicate j Slept) Refresh \<le> 1"
        by (simp add: count_list_replicate)
      with ev have once: "\<exists>new. events w' = events w @ new \<and> count_list new Refresh \<le> 1"
        by blast
      from pos ev mid fin have trace: "\<exists>k. \<exists>j>0.
               events w' =
                 events w @ replicate k Slept @ ClaimLost ?ct # replicate j Slept
               \<and> (\<forall>i. 0 < i \<and> i < j \<longrightarrow>
                    f (clock (polled i ?L)) (store (polled i ?L)) = None
                    \<and> (\<forall>m. sync_meta (store (polled i ?L)) t = Some m
                          \<longrightarrow> completed_at m < ?ct)
                    \<and> clock (polled i ?L) < ?ct + SYNC_TIMEOUT_MS)
               \<and> ((\<exists>v. f (clock (polled j ?L)) (store (polled j ?L)) = Some v
                        \<and> r = Inr (Some v) \<and> w' = polled j ?L)
                  \<or> (f (clock (polled j ?L)) (store (polled j ?L)) = None
                     \<and> ((\<exists>m. sync_meta (store (polled j ?L)) t = Some m
                             \<and> ?ct \<le> completed_at m)
                        \<or> ?ct + SYNC_TIMEOUT_MS \<le> clock (polled j ?L))
                     \<and> w' = tick (polled j ?L)
                     \<and> r = Inr (f (clock w') (store w'))))"
        by blast
      show ?thesis
      proof (intro conjI impI)
        show "\<exists>new. events w' = events w @ new \<and> count_list new Refresh \<le> 1"
          by (rule once)
      next
        assume "wait_for_other t f w = (None, w1)"
        with wf have "w1 = wa" by simp
        with trace show "\<exists>k. \<exists>j>0.
               events w' =
                 events w @ replicate k Slept @ ClaimLost (clock (tick w1)) # replicate j Slept
               \<and> (\<forall>i. 0 < i \<and> i < j \<longrightarrow>
                    f (clock (polled i (lost_start w1))) (store (polled i (lost_start w1))) = None
                    \<and> (\<forall>m. sync_meta (store (polled i (lost_start w1))) t = Some m
                          \<longrightarrow> completed_at m < clock (tick w1))
                    \<and> clock (polled i (lost_start w1)) < clock (tick w1) + SYNC_TIMEOUT_MS)
               \<and> ((\<exists>v. f (clock (polled j (lost_start w1))) (store (polled j (lost_start w1)))
                          = Some v
                        \<and> r = Inr (Some v) \<and> w' = polled j (lost_start w1))
                  \<or> (f (clock (polled j (lost_start w1))) (store (polled j (lost_start w1)))
                        = None
                     \<and> ((\<exists>m. sync_meta (store (polled j (lost_start w1))) t = Some m
                             \<and> clock (tick w1) \<le> completed_at m)
                        \<or> clock (tick w1) + SYNC_TIMEOUT_MS
                             \<le> clock (polled j (lost_start w1)))
                     \<and> w' = tick (polled j (lost_start w1))
                     \<and> r = Inr (f (clock w') (store w'))))"
          by simp
      qed
    next
      case False
      from claim_and_fetch_won [OF False cf] k have ev:
        "events w' = events w @ replicate k Slept @ [Claimed (clock (tick wa)), Refresh]" by simp
      have "count_list (replicate k Slept @ [Claimed (clock (tick wa)), Refresh]) Refresh \<le> 1"
        by (simp add: count_list_replicate)
      with ev have "\<exists>new. events w' = events w @ new \<and> count_list new Refresh \<le> 1" by blast
      with False wf no_hit show ?thesis by auto
    qed
  qed
qed

theorem refresh_at_most_once_witness:
  "syncIfNeeded ''users'' (lookupUser ''alice'') fetch_fails lost_world =
     (Inr None, \<lparr>clock = 31000, store = meta_db ''users'' 0 0, sched = [],
        events = ClaimLost 1000 # replicate 60 Slept\<rparr>)
   \<and> syncIfNeeded ''users'' (lookupUser ''alice'') fetch_fails landed_world =
     (Inr (Some ''U1''),
      \<lparr>clock = 1500,
       store = \<lparr>channels = [], users = [alice_row], user_groups = [],
                sync_meta = [''users'' \<mapsto> \<lparr>started_at = 1000, completed_at = 1400\<rparr>]\<rparr>,
       sched = [], events = [ClaimLost 1000, Slept]\<rparr>)
   \<and> syncIfNeeded ''users'' (lookupUser ''alice'') fetch_fails late_data_world =
     (Inr (Some ''U1''),
      \<lparr>clock = 1500,
       store = \<lparr>channels = [], users = [alice_row], user_groups = [],
                sync_meta = [''users'' \<mapsto> \<lparr>started_at = 1000, completed_at = 1400\<rparr>]\<rparr>,
       sched = [], events = [ClaimLost 1000, Slept]\<rparr>)
   \<and> lookupUser ''alice'' 1000 (meta_db ''users'' 0 0) = None
   \<and> wait_for_other ''users'' (lookupUser ''alice'') lost_world = (None, lost_world)
   \<and> wait_for_other ''users'' (lookupUser ''alice'') landed_world = (None, landed_world)
   \<and> wait_for_other ''users'' (lookupUser ''alice'') late_data_world = (None, late_data_world)
   \<and> fst (cas_claim ''users'' (clock (tick lost_world)) (store (tick lost_world))) = 0
   \<and> fst (cas_claim ''users'' (clock (tick landed_world)) (store (tick landed_world))) = 0
   \<and> fst (cas_claim ''users'' (clock (tick late_data_world)) (store (tick late_data_world))) = 0
   \<and> lookupUser ''alice'' (clock (polled 1 (lost_start landed_world)))
        (store (polled 1 (lost_start landed_world))) = Some ''U1''
   \<and> lookupUser ''alice'' (clock (polled 1 (lost_start late_data_world)))
        (store (polled 1 (lost_start late_data_world))) = None
   \<and> count_list (ClaimLost 1000 # replicate 60 Slept) Refresh = 0"
  using refresh_at_most_once [OF lost_run, of lost_world]
    refresh_at_most_once [OF landed_run, of landed_world]
    refresh_at_most_once [OF late_data_run, of late_data_world]
  by (simp add: lost_run landed_run late_data_run)
     (simp add: lost_world_def landed_world_def late_data_world_def alice_row_def run_defs
        polled_def lost_start_def CACHE_TTL_MS_def)

text \<open>
  The caller of \<open>late_loser_world\<close> loses to a claim with \<open>started_at = 1000\<close>, whose
  deadline is \<open>31000\<close>. Its own claim ran at \<open>1600\<close>: it sleeps sixty times, up to
  \<open>31600\<close>, where a loop against the deadline of the new claim would have ended after
  fifty-nine sleeps, at \<open>31100\<close>.
\<close>

theorem loser_polls_to_own_deadline:
  "syncIfNeeded ''users'' (lookupUser ''alice'') fetch_fails late_loser_world =
     (Inr None, \<lparr>clock = 31600, store = meta_db ''users'' 1000 0, sched = [],
        events = ClaimLost 1600 # replicate 60 Slept\<rparr>)
   \<and> sync_meta (store (tick late_loser_world)) ''users''
       = Some \<lparr>started_at = 1000, completed_at = 0\<rparr>
   \<and> poll (lookupUser ''alice'') ''users'' (1000 + SYNC_TIMEOUT_MS) 1600
        (lost_start late_loser_world) =
     (None, \<lparr>clock = 31100, store = meta_db ''users'' 1000 0, sched = [],
        events = ClaimLost 1600 # replicate 59 Slept\<rparr>)"
  by (simp add: late_loser_run)
     (simp add: late_loser_world_def run_defs lost_start_def eval_nat_numeral)

lemma fail_run:
  "syncIfNeeded ''users'' (lookupUser ''alice'') fetch_fails fail_world =
     (Inl (SlackMcpError SYNC_FAILED ''Failed to sync users: boom''),
      \<lparr>clock = 1200, store = meta_db ''users'' 0 0, sched = [],
       events = [Claimed 1000, Refresh]\<rparr>)"
  by (simp add: fail_world_def run_defs fetch_fails_def)

lemma retry_run:
  "syncIfNeeded ''users'' (lookupUser ''alice'') fetch_fails
      \<lparr>clock = 1200, store = meta_db ''users'' 0 0, sched = [],
       events = [Claimed 1000, Refresh]\<rparr> =
     (Inl (SlackMcpError SYNC_FAILED ''Failed to sync users: boom''),
      \<lparr>clock = 1200, store = meta_db ''users'' 0 0, sched = [],
       events = [Claimed 1000, Refresh, Claimed 1200, Refresh]\<rparr>)"
  by (simp add: run_defs fetch_fails_def)

lemma waiter_run:
  "syncIfNeeded ''users'' (lookupUser ''alice'') fetch_fails waiter_world =
     (Inl (SlackMcpError SYNC_FAILED ''Failed to sync users: boom''),
      \<lparr>clock = 31200, store = meta_db ''users'' 0 0, sched = [],
       events = replicate 60 Slept @ [Claimed 31200, Refresh]\<rparr>)"
  by (simp add: waiter_world_def run_defs fetch_fails_def eval_nat_numeral)

text \<open>
  C3. When the lookup misses, step 2 ends without a value, the claim changes the row
  and the refresh throws, \<open>syncIfNeeded\<close> raises Sync-Failed with a message that names
  the table and the thrown message, and ends in the world in which the lock is reset:
  the row is idle. Conversely a call that ends in an error had claimed the row and
  invoked the refresh, which threw. A following call whose lookup misses does not poll
  in step 2, and when no other process acts and the row still exists it claims the row
  at once and invokes the refresh.
\<close>

theorem sync_failed_resets_lock:
  "(f (clock w) (store w) = None \<longrightarrow> wait_for_other t f w = (None, w1) \<longrightarrow>
      fst (cas_claim t (clock (tick w1)) (store (tick w1))) \<noteq> 0 \<longrightarrow>
      a (clock (tick w1)) (store (after_claim t w1)) = (Some msg, d') \<longrightarrow>
        syncIfNeeded t f a w =
          (Inl (SlackMcpError SYNC_FAILED (''Failed to sync '' @ t @ '': '' @ msg)),
           (after_claim t w1)\<lparr>store := reset_lock t d'\<rparr>)
        \<and> (\<forall>m. sync_meta (reset_lock t d') t = Some m \<longrightarrow> started_at m = completed_at m))
   \<and> (syncIfNeeded t f a w = (Inl e, w') \<longrightarrow>
        (\<exists>msg. e = SlackMcpError SYNC_FAILED (''Failed to sync '' @ t @ '': '' @ msg)
            \<and> (\<exists>called d d'. a called d = (Some msg, d')))
        \<and> (\<exists>k ct. events w' = events w @ replicate k Slept @ [Claimed ct, Refresh])
        \<and> (\<forall>m. sync_meta (store w') t = Some m \<longrightarrow> started_at m \<le> completed_at m)
        \<and> (f (clock w') (store w') = None \<longrightarrow> wait_for_other t f w' = (None, w'))
        \<and> (f (clock w') (store w') = None \<longrightarrow> sched w' = [] \<longrightarrow>
             sync_meta (store w') t \<noteq> None \<longrightarrow>
               (\<exists>r w''. syncIfNeeded t f a' w' = (r, w'')
                  \<and> events w'' = events w' @ [Claimed (clock w'), Refresh])))"
proof (intro conjI impI)
  assume miss: "f (clock w) (store w) = None" and wf: "wait_for_other t f w = (None, w1)"
    and won: "fst (cas_claim t (clock (tick w1)) (store (tick w1))) \<noteq> 0"
    and throws: "a (clock (tick w1)) (store (after_claim t w1)) = (Some msg, d')"
  from miss wf claim_and_fetch_throws [of t w1 a msg d' f, OF won throws]
  show "syncIfNeeded t f a w =
          (Inl (SlackMcpError SYNC_FAILED (''Failed to sync '' @ t @ '': '' @ msg)),
           (after_claim t w1)\<lparr>store := reset_lock t d'\<rparr>)"
    by (simp add: syncIfNeeded_def)
  show "\<forall>m. sync_meta (reset_lock t d') t = Some m \<longrightarrow> started_at m = completed_at m"
    by (simp add: reset_lock_idle)
next
  assume run: "syncIfNeeded t f a w = (Inl e, w')"
  from run have miss: "f (clock w) (store w) = None"
    by (auto simp: syncIfNeeded_def split: option.splits)
  obtain res wa where wf: "wait_for_other t f w = (res, wa)"
    by (cases "wait_for_other t f w")
  from run miss wf have res: "res = None" and cf: "claim_and_fetch t f a wa = (Inl e, w')"
    by (auto simp: syncIfNeeded_def split: option.splits)
  from wait_for_other_spec [OF wf] obtain k where k: "events wa = events w @ replicate k Slept"
    by blast
  have won: "fst (cas_claim t (clock (tick wa)) (store (tick wa))) \<noteq> 0"
  proof
    assume "fst (cas_claim t (clock (tick wa)) (store (tick wa))) = 0"
    from claim_and_fetch_lost [OF this cf] show False by simp
  qed
  from claim_and_fetch_won [OF won cf]
  have ev: "events w' = events wa @ [Claimed (clock (tick wa)), Refresh]"
    and msg: "\<exists>msg. e = SlackMcpError SYNC_FAILED (''Failed to sync '' @ t @ '': '' @ msg)
            \<and> (\<exists>called d d'. a called d = (Some msg, d'))"
    and idle: "\<forall>m. sync_meta (store w') t = Some m \<longrightarrow> started_at m = completed_at m"
    by auto
  show "\<exists>msg. e = SlackMcpError SYNC_FAILED (''Failed to sync '' @ t @ '': '' @ msg)
            \<and> (\<exists>called d d'. a called d = (Some msg, d'))"
    by (rule msg)
  from ev k show "\<exists>k ct. events w' = events w @ replicate k Slept @ [Claimed ct, Refresh]"
    by auto
  from idle show "\<forall>m. sync_meta (store w') t = Some m \<longrightarrow> started_at m \<le> completed_at m"
    by auto
  have nowait: "wait_for_other t f w' = (None, w')"
    using idle by (auto simp: wait_for_other_def Let_def split: option.splits)
  then show "wait_for_other t f w' = (None, w')" .
  assume miss': "f (clock w') (store w') = None" and quiet: "sched w' = []"
    and row: "sync_meta (store w') t \<noteq> None"
  from quiet have tk: "tick w' = w'" by (simp add: tick_def)
  from row idle have "fst (cas_claim t (clock w') (store w')) \<noteq> 0"
    by (auto simp: cas_claim_def)
  with tk have won': "fst (cas_claim t (clock (tick w')) (store (tick w'))) \<noteq> 0" by simp
  obtain r w'' where cf': "claim_and_fetch t f a' w' = (r, w'')"
    by (cases "claim_and_fetch t f a' w'")
  from claim_and_fetch_won [OF won' cf'] tk
  have "events w'' = events w' @ [Claimed (clock w'), Refresh]" by simp
  moreover from miss' nowait cf' have "syncIfNeeded t f a' w' = (r, w'')"
    by (simp add: syncIfNeeded_def)
  ultimately show "\<exists>r w''. syncIfNeeded t f a' w' = (r, w'')
             \<and> events w'' = events w' @ [Claimed (clock w'), Refresh]" by blast
qed

theorem sync_failed_resets_lock_witness:
  "lookupUser ''alice'' (clock fail_world) (store fail_world) = None
   \<and> wait_for_other ''users'' (lookupUser ''alice'') fail_world = (None, fail_world)
   \<and> fst (cas_claim ''users'' (clock (tick fail_world)) (store (tick fail_world))) = 1
   \<and> after_claim ''users'' fail_world =
       \<lparr>clock = 1200, store = meta_db ''users'' 1000 0, sched = [],
        events = [Claimed 1000, Refresh]\<rparr>
   \<and> fetch_fails 1000 (meta_db ''users'' 1000 0) = (Some ''boom'', meta_db ''users'' 1000 0)
   \<and> reset_lock ''users'' (meta_db ''users'' 1000 0) = meta_db ''users'' 0 0
   \<and> syncIfNeeded ''users'' (lookupUser ''alice'') fetch_fails fail_world =
     (Inl (SlackMcpError SYNC_FAILED ''Failed to sync users: boom''),
      \<lparr>clock = 1200, store = meta_db ''users'' 0 0, sched = [],
       events = [Claimed 1000, Refresh]\<rparr>)
   \<and> sync_meta (meta_db ''users'' 0 0) ''users'' = Some \<lparr>started_at = 0, completed_at = 0\<rparr>
   \<and> lookupUser ''alice'' 1200 (meta_db ''users'' 0 0) = None
   \<and> events (snd (syncIfNeeded ''users'' (lookupUser ''alice'') fetch_fails
        \<lparr>clock = 1200, store = meta_db ''users'' 0 0, sched = [],
         events = [Claimed 1000, Refresh]\<rparr>))
      = [Claimed 1000, Refresh, Claimed 1200, Refresh]"
  using sync_failed_resets_lock [of "lookupUser ''alice''" fail_world "''users''" fail_world
      fetch_fails "''boom''" "meta_db ''users'' 1000 0"
      "SlackMcpError SYNC_FAILED ''Failed to sync users: boom''"
      "\<lparr>clock = 1200, store = meta_db ''users'' 0 0, sched = [],
        events = [Claimed 1000, Refresh]\<rparr>" fetch_fails]
  by (simp add: fail_run retry_run)
     (simp add: fail_world_def after_claim_def fetch_fails_def run_defs)

lemma poll_quiet:
  "sched w = [] \<Longrightarrow> \<forall>now. f now (store w) = None \<Longrightarrow>
   \<forall>m. sync_meta (store w) t = Some m \<longrightarrow> completed_at m < s \<Longrightarrow>
     fst (poll f t dl s w) = None \<and> dl \<le> clock (snd (poll f t dl s w))
     \<and> store (snd (poll f t dl s w)) = store w"
proof (induction f t dl s w rule: poll.induct)
  case (1 f t dl s w)
  show ?case
  proof (cases "clock w < dl")
    case False
    then show ?thesis by (simp add: poll.simps [of f t dl s w])
  next
    case True
    define w1 where "w1 = sleep POLL_INTERVAL_MS w"
    from "1.prems"(1) have w1: "sched w1 = []" "store w1 = store w"
      by (simp_all add: w1_def sleep_def tick_def)
    with "1.prems" have miss: "f (clock w1) (store w1) = None" by simp
    have rec: "poll f t dl s w = poll f t dl s w1"
      using True miss "1.prems"(3) w1
      by (auto simp: poll.simps [of f t dl s w] w1_def [symmetric] Let_def split: option.splits)
    have "fst (poll f t dl s w1) = None \<and> dl \<le> clock (snd (poll f t dl s w1))
     \<and> store (snd (poll f t dl s w1)) = store w1"
    proof (cases "sync_meta (store w1) t")
      case None
      from "1.IH"(1) [OF True w1_def miss None w1(1)] "1.prems" w1 show ?thesis by simp
    next
      case (Some m)
      with "1.prems"(3) w1 have "\<not> s \<le> completed_at m" by auto
      from "1.IH"(2) [OF True w1_def miss Some this w1(1)] "1.prems" w1 show ?thesis by simp
    qed
    with rec w1 show ?thesis by simp
  qed
qed

text \<open>
  C2 (amended). A successful claim at time \<open>s\<close> writes \<open>started_at = s\<close>; the reset after
  a failed refresh writes \<open>started_at = completed_at\<close> and leaves \<open>completed_at\<close> as it
  was. When that value lies before \<open>s\<close>, a waiter polling with \<open>since = s\<close> on the reset
  row, with no lookup hit and nobody else acting, does not leave the loop before its
  deadline.
\<close>

theorem failed_refresh_rolls_back:
  "sync_meta d t = Some m \<longrightarrow> fst (cas_claim t s d) = 1 \<longrightarrow>
      sync_meta (snd (cas_claim t s d)) t = Some (m\<lparr>started_at := s\<rparr>)
    \<and> sync_meta (reset_lock t (snd (cas_claim t s d))) t = Some (m\<lparr>started_at := completed_at m\<rparr>)
    \<and> (completed_at m < s \<longrightarrow> store w = reset_lock t (snd (cas_claim t s d)) \<longrightarrow> sched w = [] \<longrightarrow>
          (\<forall>now. f now (store w) = None) \<longrightarrow>
            fst (poll f t dl s w) = None \<and> dl \<le> clock (snd (poll f t dl s w))
            \<and> store (snd (poll f t dl s w)) = store w)"
proof (intro impI conjI)
  assume m: "sync_meta d t = Some m" and c: "fst (cas_claim t s d) = 1"
  then show "sync_meta (snd (cas_claim t s d)) t = Some (m\<lparr>started_at := s\<rparr>)"
    by (auto simp: cas_claim_def split: if_splits)
  from m c show r: "sync_meta (reset_lock t (snd (cas_claim t s d))) t = Some (m\<lparr>started_at := completed_at m\<rparr>)"
    by (auto simp: cas_claim_def reset_lock_def split: if_splits)
  assume lt: "completed_at m < s" and st: "store w = reset_lock t (snd (cas_claim t s d))"
    and q: "sched w = []" and miss: "\<forall>now. f now (store w) = None"
  from r st lt have "\<forall>m'. sync_meta (store w) t = Some m' \<longrightarrow> completed_at m' < s" by simp
  from poll_quiet [of w f t s dl, OF q miss this]
  show "fst (poll f t dl s w) = None" "dl \<le> clock (snd (poll f t dl s w))"
    "store (snd (poll f t dl s w)) = store w" by simp_all
qed

theorem failed_refresh_rolls_back_witness:
  "sync_meta (meta_db ''users'' 0 0) ''users'' = Some \<lparr>started_at = 0, completed_at = 0\<rparr>
   \<and> cas_claim ''users'' 1000 (meta_db ''users'' 0 0) = (1, meta_db ''users'' 1000 0)
   \<and> reset_lock ''users'' (meta_db ''users'' 1000 0) = meta_db ''users'' 0 0
   \<and> fst (poll (lookupUser ''alice'') ''users'' 31000 1000
        \<lparr>clock = 1200, store = meta_db ''users'' 0 0, sched = [], events = []\<rparr>) = None
   \<and> 31000 \<le> clock (snd (poll (lookupUser ''alice'') ''users'' 31000 1000
        \<lparr>clock = 1200, store = meta_db ''users'' 0 0, sched = [], events = []\<rparr>))"
  using failed_refresh_rolls_back [of "meta_db ''users'' 0 0" "''users''"
      "\<lparr>started_at = 0, completed_at = 0\<rparr>" 1000
      "\<lparr>clock = 1200, store = meta_db ''users'' 0 0, sched = [], events = []\<rparr>"
      "lookupUser ''alice''" 31000]
  by (simp add: meta_db_def cas_claim_def reset_lock_def lookupUser_def select_id_def)

text \<open>
  The claim at \<open>1000\<close> on the row \<open>(0, 0)\<close> fails: the row is \<open>(0, 0)\<close> again, its
  \<open>completed_at\<close> is not \<open>1000\<close>. A waiter that saw \<open>started_at = 1000\<close> sleeps sixty
  times, up to its deadline, before it claims.
\<close>

theorem failed_refresh_keeps_completed_at:
  "syncIfNeeded ''users'' (lookupUser ''alice'') fetch_fails fail_world =
     (Inl (SlackMcpError SYNC_FAILED ''Failed to sync users: boom''),
      \<lparr>clock = 1200, store = meta_db ''users'' 0 0, sched = [],
       events = [Claimed 1000, Refresh]\<rparr>)
   \<and> map_option completed_at (sync_meta (meta_db ''users'' 0 0) ''users'') \<noteq> Some 1000
   \<and> syncIfNeeded ''users'' (lookupUser ''alice'') fetch_fails waiter_world =
     (Inl (SlackMcpError SYNC_FAILED ''Failed to sync users: boom''),
      \<lparr>clock = 31200, store = meta_db ''users'' 0 0, sched = [],
       events = replicate 60 Slept @ [Claimed 31200, Refresh]\<rparr>)"
  by (simp add: fail_run waiter_run) (simp add: meta_db_def)

lemma tick_absent:
  assumes "sync_meta (store w) t = None"
    and "\<forall>e \<in> set (sched w). \<forall>d. sync_meta d t = None \<longrightarrow> sync_meta (act e d) t = None"
  shows "sync_meta (store (tick w)) t = None"
  using assms by (cases "sched w") (auto simp: tick_def)

text \<open>
  C10. For a table name without a row in \<open>sync_meta\<close>, which no other process adds:
  \<open>isTableSynced\<close> compares \<open>0\<close> with \<open>now - CACHE_TTL_MS\<close> and is false from time
  \<open>CACHE_TTL_MS\<close> on; \<open>syncIfNeeded\<close> does not poll in step 2, its claim affects zero
  rows, it invokes no refresh and returns what the lookup yields.
\<close>

theorem missing_row_never_refreshes:
  assumes absent: "sync_meta (store w) t = None"
    and env: "\<forall>e \<in> set (sched w). \<forall>d. sync_meta d t = None \<longrightarrow> sync_meta (act e d) t = None"
    and run: "syncIfNeeded t f a w = (r, w')"
  shows "isTableSynced t w = (0 > clock w - CACHE_TTL_MS)
     \<and> (CACHE_TTL_MS \<le> clock w \<longrightarrow> \<not> isTableSynced t w)
     \<and> wait_for_other t f w = (None, w)
     \<and> fst (cas_claim t (clock (tick w)) (store (tick w))) = 0
     \<and> (\<exists>new. events w' = events w @ new \<and> Refresh \<notin> set new \<and> (\<forall>c. Claimed c \<notin> set new))
     \<and> r = Inr (f (clock w') (store w'))
     \<and> (f (clock w) (store w) = None \<longrightarrow>
          (\<exists>j. events w' = events w @ ClaimLost (clock (tick w)) # replicate j Slept))"
proof -
  from absent have synced: "isTableSynced t w = (0 > clock w - CACHE_TTL_MS)"
    by (simp add: isTableSynced_def)
  from absent have nowait: "wait_for_other t f w = (None, w)"
    by (simp add: wait_for_other_def)
  from tick_absent [OF absent env] have lost: "fst (cas_claim t (clock (tick w)) (store (tick w))) = 0"
    by (simp add: cas_claim_def)
  show ?thesis
  proof (cases "f (clock w) (store w)")
    case (Some v)
    with run have "w' = w" "r = Inr (Some v)" by (simp_all add: syncIfNeeded_def)
    with Some synced nowait lost show ?thesis by simp
  next
    case None
    with run nowait have cf: "claim_and_fetch t f a w = (r, w')"
      by (simp add: syncIfNeeded_def)
    from claim_and_fetch_lost [OF lost cf] obtain j where
      j: "events w' = events w @ ClaimLost (clock (tick w)) # replicate j Slept"
      and r: "r = Inr (f (clock w') (store w'))" by blast
    have "Refresh \<notin> set (ClaimLost (clock (tick w)) # replicate j Slept)
        \<and> (\<forall>c. Claimed c \<notin> set (ClaimLost (clock (tick w)) # replicate j Slept))" by auto
    with j have "\<exists>new. events w' = events w @ new \<and> Refresh \<notin> set new \<and> (\<forall>c. Claimed c \<notin> set new)"
      by blast
    with j r synced nowait lost show ?thesis by auto
  qed
qed

lemma no_row_run:
  "syncIfNeeded ''projects'' (lookupUser ''alice'') fetch_fails no_row_world =
     (Inr None, \<lparr>clock = 100030000, store = snd (cas_claim ''users'' 100000000 empty_db),
        sched = [], events = ClaimLost 100000000 # replicate 60 Slept\<rparr>)"
  by (simp add: no_row_world_def empty_db_def seed_meta_def upsert_meta_def run_defs
        fetch_fails_def eval_nat_numeral)

theorem missing_row_never_refreshes_witness:
  "sync_meta (store no_row_world) ''projects'' = None
   \<and> syncIfNeeded ''projects'' (lookupUser ''alice'') fetch_fails no_row_world =
     (Inr None, \<lparr>clock = 100030000, store = snd (cas_claim ''users'' 100000000 empty_db),
        sched = [], events = ClaimLost 100000000 # replicate 60 Slept\<rparr>)
   \<and> \<not> isTableSynced ''projects'' no_row_world
   \<and> CACHE_TTL_MS \<le> clock no_row_world
   \<and> lookupUser ''alice'' (clock no_row_world) (store no_row_world) = None"
proof -
  have absent: "sync_meta (store no_row_world) ''projects'' = None"
    by (simp add: no_row_world_def empty_db_def seed_meta_def upsert_meta_def)
  have env: "\<forall>e \<in> set (sched no_row_world). \<forall>d. sync_meta d ''projects'' = None
      \<longrightarrow> sync_meta (act e d) ''projects'' = None"
    by (simp add: no_row_world_def cas_claim_def split: option.splits)
  from missing_row_never_refreshes [OF absent env no_row_run] absent no_row_run
  show ?thesis
    by (simp add: no_row_world_def CACHE_TTL_MS_def empty_db_def seed_meta_def upsert_meta_def
          lookupUser_def select_id_def)
qed

section \<open>The entity caches\<close>

text \<open>
  C6. When the metadata row of the table has \<open>completed_at > now - CACHE_TTL_MS\<close> and
  the lookup misses, \<open>resolveUser\<close>, \<open>resolveUserGroup\<close> and \<open>getChannelId\<close> return
  absent and leave the world as it is: no claim, no sleep, no refresh.
\<close>

theorem known_fresh_miss_is_absent:
  "((\<exists>m. sync_meta (store w) ''users'' = Some m \<and> completed_at m > clock w - CACHE_TTL_MS)
      \<and> lookupUser n (clock w) (store w) = None
      \<longrightarrow> resolveUser n fetch w = (Inr None, w))
   \<and> ((\<exists>m. sync_meta (store w) ''user_groups'' = Some m \<and> completed_at m > clock w - CACHE_TTL_MS)
      \<and> lookupUserGroup n (clock w) (store w) = None
      \<longrightarrow> resolveUserGroup n fetch w = (Inr None, w))
   \<and> ((\<exists>m. sync_meta (store w) ''channels'' = Some m \<and> completed_at m > clock w - CACHE_TTL_MS)
      \<and> lookupChannel n (clock w) (store w) = None
      \<longrightarrow> getChannelId n fetch w = (Inr None, w))"
  by (auto simp: resolveUser_def resolveUserGroup_def getChannelId_def isTableSynced_def)

theorem known_fresh_miss_is_absent_witness:
  "sync_meta (store fresh_world) ''users'' = Some \<lparr>started_at = 99980000, completed_at = 99990000\<rparr>
   \<and> sync_meta (store fresh_world) ''user_groups'' = Some \<lparr>started_at = 99980000, completed_at = 99990000\<rparr>
   \<and> sync_meta (store fresh_world) ''channels'' = Some \<lparr>started_at = 99980000, completed_at = 99990000\<rparr>
   \<and> (99990000::int) > clock fresh_world - CACHE_TTL_MS
   \<and> lookupUser ''nobody'' (clock fresh_world) (store fresh_world) = None
   \<and> lookupUserGroup ''nobody'' (clock fresh_world) (store fresh_world) = None
   \<and> lookupChannel ''nobody'' (clock fresh_world) (store fresh_world) = None
   \<and> resolveUser ''nobody'' fetch_fails fresh_world = (Inr None, fresh_world)
   \<and> resolveUserGroup ''nobody'' fetch_fails fresh_world = (Inr None, fresh_world)
   \<and> getChannelId ''nobody'' fetch_fails fresh_world = (Inr None, fresh_world)"
  using known_fresh_miss_is_absent [of fresh_world "''nobody''" fetch_fails]
  by (simp add: fresh_world_def CACHE_TTL_MS_def lookupUser_def lookupUserGroup_def
        lookupChannel_def select_id_def)

text \<open>
  C7. The store holds the fresh channel \<open>(C2, random)\<close> and the table is known fresh.
  \<open>getChannelId\<close> of cache/channels.ts looks \<open>C2\<close> up as a name only: the name
  \<open>random\<close> resolves to \<open>C2\<close>, the input \<open>C2\<close> resolves to nothing.
\<close>

theorem channel_id_not_resolved:
  "lookupChannel ''C2'' (clock fresh_world) (store fresh_world) = None
   \<and> lookupChannel ''random'' (clock fresh_world) (store fresh_world) = Some ''C2''
   \<and> getChannelId ''C2'' fetch fresh_world = (Inr None, fresh_world)"
  by (simp add: getChannelId_def lookupChannel_def isTableSynced_def
        select_id_def fresh_world_def CACHE_TTL_MS_def)

text \<open>The module with the lookup by id resolves \<open>C2\<close> in the same world.\<close>

lemma by_id_variant_resolves:
  "getChannelId_by_id ''C2'' fetch fresh_world = (Inr (Some ''C2''), fresh_world)"
  by (simp add: getChannelId_by_id_def lookupChannelByName_def lookupChannelById_def
        select_id_def fresh_world_def CACHE_TTL_MS_def)

section \<open>Mention conversion\<close>

text \<open>
  C9. On \<open>@here @alice please check\<close>, with \<open>alice\<close> resolving to \<open>U222\<close> and no group
  or user called \<open>here\<close>, \<open>convertMentions\<close> passes both \<open>here\<close> and \<open>alice\<close> to the
  resolvers and leaves \<open>@here\<close> in the text.
\<close>

theorem broadcast_left_as_is:
  "mention_names ''@here @alice please check'' = [''here'', ''alice'']
   \<and> convertMentions (\<lambda>name. None) (\<lambda>name. if name = ''alice'' then Some ''U222'' else None)
        ''@here @alice please check''
      = ''@here <@U222> please check''"
  by code_simp

section \<open>Several callers\<close>








end
